theory Spec2Isabelle
  imports Complex_Main "HOL-Library.Multiset"
begin

section \<open>JavaScript values\<close>

text \<open>
  The values a parsed JSON body, a prop or an event argument can hold. JSON numbers are
  finite, so a rational stands for them (the only thing the component asks of a number
  is whether it is zero). An object is its list of own properties; the first entry of a
  key is the one read. \<open>JUndefined\<close> never comes out of a JSON parse, but is what a
  read of an absent property gives.
\<close>

datatype jsval =
    JUndefined
  | JNull
  | JBool bool
  | JNum rat
  | JStr string
  | JArr "jsval list"
  | JObj "(string \<times> jsval) list"

text \<open>JavaScript truthiness: what \<open>!v\<close>, \<open>a || b\<close> and \<open>c ? x : y\<close> test.\<close>

fun truthy :: "jsval \<Rightarrow> bool" where
  "truthy JUndefined = False"
| "truthy JNull = False"
| "truthy (JBool b) = b"
| "truthy (JNum r) = (r \<noteq> 0)"
| "truthy (JStr s) = (s \<noteq> [])"
| "truthy (JArr xs) = True"
| "truthy (JObj kvs) = True"

text \<open>\<open>typeof v === "string"\<close>.\<close>

fun is_string :: "jsval \<Rightarrow> bool" where
  "is_string (JStr s) = True"
| "is_string v = False"

text \<open>The characters of a string value.\<close>

fun text_of :: "jsval \<Rightarrow> string" where
  "text_of (JStr s) = s"
| "text_of v = []"

text \<open>\<open>v === null || v === undefined\<close>: the values a property read throws on.\<close>

fun nullish :: "jsval \<Rightarrow> bool" where
  "nullish JUndefined = True"
| "nullish JNull = True"
| "nullish v = False"

text \<open>\<open>a || b\<close>: the left operand when it is truthy, the right one otherwise.\<close>

definition js_or :: "jsval \<Rightarrow> jsval \<Rightarrow> jsval" where
  "js_or a b = (if truthy a then a else b)"

text \<open>
  \<open>v?.k\<close> for the keys the component reads (\<open>data\<close>, \<open>id\<close>, \<open>title\<close>, \<open>images\<close>,
  \<open>downsized_medium\<close>, \<open>original\<close>, \<open>downsized\<close>, \<open>url\<close>): none of them is a property
  of a prototype, so on a string, a number, a boolean or an array the read gives
  \<open>undefined\<close>, as it does on \<open>null\<close> and \<open>undefined\<close> through the optional chain.
  On a non-nullish value this is also the plain read \<open>v.k\<close>.
\<close>

fun opt_prop :: "jsval \<Rightarrow> string \<Rightarrow> jsval" where
  "opt_prop (JObj kvs) k = (case map_of kvs k of None \<Rightarrow> JUndefined | Some v \<Rightarrow> v)"
| "opt_prop v k = JUndefined"

section \<open>Thrown values\<close>

text \<open>
  The two TypeErrors the normalization can raise: calling \<open>.map\<close> on a value that has no
  such method, and reading a property of \<open>null\<close> or \<open>undefined\<close>.
\<close>

datatype type_error = NotAFunction | ReadOfNullish

text \<open>
  What the \<open>catch\<close> block can receive: an error object with its \<open>name\<close> and \<open>message\<close>
  (the rejections of \<open>fetch\<close> and \<open>res.json()\<close>, and the \<open>new Error(...)\<close> of the
  component itself), or a TypeError raised by the engine, whose message text belongs to
  the engine.
\<close>

datatype thrown =
    ErrorObject string string
  | EngineTypeError type_error

text \<open>
  \<open>String(e?.message || e)\<close>. For an error object with an empty message the right
  operand is taken, and \<open>String\<close> of an error with an empty message is its name.
  The engine's wording of a TypeError is the parameter \<open>em\<close>.
\<close>

fun failure_text :: "(type_error \<Rightarrow> string) \<Rightarrow> thrown \<Rightarrow> string" where
  "failure_text em (ErrorObject n m) = (if m \<noteq> [] then m else n)"
| "failure_text em (EngineTypeError te) = (if em te \<noteq> [] then em te else ''TypeError'')"

text \<open>Decimal text of a non-negative integer, as a template literal prints a status.\<close>

definition digit_char :: "nat \<Rightarrow> char" where
  "digit_char d = ''0123456789'' ! d"

function show_nat :: "nat \<Rightarrow> string" where
  "show_nat n = (if n < 10 then [digit_char n] else show_nat (n div 10) @ [digit_char (n mod 10)])"
  by pat_completeness auto
termination
  by (relation "measure (\<lambda>n. n)") auto

declare show_nat.simps [simp del]

section \<open>The deck viewer (Giffer.jsx)\<close>

text \<open>One normalized card: the object literal built in the \<open>map\<close> callback.\<close>

record gif =
  id_field :: jsval
  title :: jsval
  preview :: jsval
  url :: jsval

text \<open>The six \<open>useState\<close> cells of the component.\<close>

record giffer_state =
  gifs :: "gif list"
  idx :: nat
  liked :: "gif list"
  disliked :: "gif list"
  loading :: bool
  error :: string

text \<open>The \<open>useState\<close> initial values.\<close>

definition initial_state :: giffer_state where
  "initial_state = \<lparr>gifs = [], idx = 0, liked = [], disliked = [], loading = False, error = []\<rparr>"

subsection \<open>Normalization\<close>

text \<open>
  The callback of \<open>.map\<close>. Its first read, \<open>d.id\<close>, throws on \<open>null\<close> (and
  \<open>undefined\<close>); after it the other reads cannot throw.
\<close>

definition map_callback :: "jsval \<Rightarrow> type_error + gif" where
  "map_callback d =
     (if nullish d then Inl ReadOfNullish
      else Inr \<lparr>id_field = opt_prop d ''id'',
                title = js_or (opt_prop d ''title'') (JStr ''Untitled''),
                preview =
                  js_or (opt_prop (opt_prop (opt_prop d ''images'') ''downsized_medium'') ''url'')
                    (js_or (opt_prop (opt_prop (opt_prop d ''images'') ''original'') ''url'')
                       (opt_prop (opt_prop (opt_prop d ''images'') ''downsized'') ''url'')),
                url = opt_prop d ''url''\<rparr>)"

text \<open>\<open>Array.prototype.map\<close>: in order, stopping at the first throw.\<close>

fun array_map :: "jsval list \<Rightarrow> type_error + gif list" where
  "array_map [] = Inr []"
| "array_map (d # ds) =
     (case map_callback d of
        Inl e \<Rightarrow> Inl e
      | Inr g \<Rightarrow> (case array_map ds of Inl e \<Rightarrow> Inl e | Inr gs \<Rightarrow> Inr (g # gs)))"

text \<open>
  \<open>(json?.data || []).map(...)\<close>. A truthy \<open>data\<close> that is not an array has no
  callable \<open>map\<close>, and the call throws.
\<close>

definition normalize_json :: "jsval \<Rightarrow> type_error + gif list" where
  "normalize_json json =
     (case js_or (opt_prop json ''data'') (JArr []) of
        JArr ds \<Rightarrow> array_map ds
      | _ \<Rightarrow> Inl NotAFunction)"

subsection \<open>Voting\<close>

text \<open>\<open>const current = gifs[idx]\<close>: \<open>undefined\<close> (here \<open>None\<close>) past the end.\<close>

definition current :: "giffer_state \<Rightarrow> gif option" where
  "current s = (if idx s < length (gifs s) then Some (gifs s ! idx s) else None)"

text \<open>
  \<open>handleVote(kind)\<close> as a render creates it. The function closes over the \<open>current\<close> of
  its render, here \<open>cur\<close>: the guard \<open>!current\<close> and the card appended are that render's.
  A card is an object, hence truthy, so the guard holds exactly when that render had no
  card. The setters are given updater functions, so the list appended to and the
  pointer incremented are those of the latest state \<open>s\<close>, which need not be the state
  the render showed. A natural number stands for the pointer.
\<close>

definition handleVote_closure :: "gif option \<Rightarrow> jsval \<Rightarrow> giffer_state \<Rightarrow> giffer_state" where
  "handleVote_closure cur kind s =
     (case cur of
        None \<Rightarrow> s
      | Some c \<Rightarrow>
          (if kind = JStr ''like'' then s\<lparr>liked := liked s @ [c]\<rparr>
           else s\<lparr>disliked := disliked s @ [c]\<rparr>)\<lparr>idx := idx s + 1\<rparr>)"

text \<open>
  The vote handled by the render of the state it acts on: \<open>current\<close> is then
  \<open>gifs[idx]\<close> of that very state.
\<close>

definition handleVote :: "jsval \<Rightarrow> giffer_state \<Rightarrow> giffer_state" where
  "handleVote kind s = handleVote_closure (current s) kind s"

subsection \<open>The fetch effect\<close>

text \<open>
  What the two awaited promises of \<open>fetchDeck\<close> can settle with. Of a response the
  component reads \<open>res.ok\<close> and \<open>res.status\<close>, then awaits \<open>res.json()\<close>.
\<close>

record response =
  ok :: bool
  status :: nat

datatype fetch_outcome = FetchRejected thrown | FetchResponse response

datatype json_outcome = JsonRejected thrown | JsonParsed jsval

text \<open>
  One run of the effect that got past the validation: the closure of \<open>fetchDeck\<close>, with
  the endpoint it fetches, its own \<open>ignore\<close> variable and the \<open>await\<close> it is parked at.
\<close>

datatype phase = AwaitFetch | AwaitJson | Finished

record request =
  endpoint :: string
  ignore :: bool
  phase :: phase

text \<open>
  The mounted component: its state cells (\<open>view\<close>, the latest state), the state the
  last render was given (\<open>rendered\<close>: the buttons on the page carry the \<open>handleVote\<close> of
  that render), every \<open>fetchDeck\<close> closure created so far (a closure is named by its
  position, and the list only grows), and the cleanup function React holds for the
  latest effect run, if that run returned one.
\<close>

record system =
  view :: giffer_state
  rendered :: giffer_state
  requests :: "request list"
  cleanup :: "nat option"
  mounted :: bool

text \<open>The component after its first render, before the first effect run.\<close>

definition mount :: system where
  "mount = \<lparr>view = initial_state, rendered = initial_state, requests = [], cleanup = None,
            mounted = True\<rparr>"

text \<open>The returned cleanup, \<open>() => { ignore = true }\<close>, run by React before the next
  effect run and at unmount.\<close>

definition run_cleanup :: "system \<Rightarrow> system" where
  "run_cleanup s =
     (case cleanup s of
        None \<Rightarrow> s
      | Some i \<Rightarrow>
          s\<lparr>requests := (requests s)[i := (requests s ! i)\<lparr>ignore := True\<rparr>],
            cleanup := None\<rparr>)"

text \<open>The text handed to \<open>setError\<close> by the validation.\<close>

definition invalid_endpoint_message :: string where
  "invalid_endpoint_message =
     ''Invalid endpoint: Pass a full Giphy URL as the `apiKey` prop.''"

text \<open>
  The effect body up to the first \<open>await\<close>: the validation with its early return (no
  cleanup is returned then), otherwise a fresh \<open>ignore = false\<close>, the two setter calls
  at the head of \<open>fetchDeck\<close>, the call of \<open>fetch(apiKey)\<close>, and the cleanup returned.
\<close>

definition effect_body :: "jsval \<Rightarrow> system \<Rightarrow> system" where
  "effect_body apiKey s =
     (if \<not> truthy apiKey \<or> \<not> is_string apiKey then
        s\<lparr>view := (view s)\<lparr>error := invalid_endpoint_message\<rparr>, cleanup := None\<rparr>
      else
        s\<lparr>view := (view s)\<lparr>loading := True, error := []\<rparr>,
          requests :=
            requests s @ [\<lparr>endpoint = text_of apiKey, ignore = False, phase = AwaitFetch\<rparr>],
          cleanup := Some (length (requests s))\<rparr>)"

text \<open>The \<open>catch\<close> block followed by the \<open>finally\<close> block, for the closure's \<open>ignore\<close>.\<close>

definition catch_finally ::
  "(type_error \<Rightarrow> string) \<Rightarrow> bool \<Rightarrow> thrown \<Rightarrow> giffer_state \<Rightarrow> giffer_state" where
  "catch_finally em ign e s =
     (let s1 = (if \<not> ign then s\<lparr>error := failure_text em e\<rparr> else s)
      in if \<not> ign then s1\<lparr>loading := False\<rparr> else s1)"

text \<open>The \<open>finally\<close> block alone, after a \<open>try\<close> body that did not throw.\<close>

definition finally_block :: "bool \<Rightarrow> giffer_state \<Rightarrow> giffer_state" where
  "finally_block ign s = (if \<not> ign then s\<lparr>loading := False\<rparr> else s)"

text \<open>
  \<open>fetchDeck\<close> resumed after \<open>await fetch(apiKey)\<close>. The second component tells whether
  the closure goes on to \<open>await res.json()\<close>.
\<close>

definition after_fetch ::
  "(type_error \<Rightarrow> string) \<Rightarrow> bool \<Rightarrow> fetch_outcome \<Rightarrow> giffer_state \<Rightarrow> giffer_state \<times> bool" where
  "after_fetch em ign fo s =
     (case fo of
        FetchRejected e \<Rightarrow> (catch_finally em ign e s, False)
      | FetchResponse r \<Rightarrow>
          (if \<not> ok r then
             (catch_finally em ign (ErrorObject ''Error'' (''HTTP '' @ show_nat (status r))) s,
              False)
           else (s, True)))"

text \<open>\<open>fetchDeck\<close> resumed after \<open>await res.json()\<close>, to its end.\<close>

definition after_json ::
  "(type_error \<Rightarrow> string) \<Rightarrow> bool \<Rightarrow> json_outcome \<Rightarrow> giffer_state \<Rightarrow> giffer_state" where
  "after_json em ign jo s =
     (case jo of
        JsonRejected e \<Rightarrow> catch_finally em ign e s
      | JsonParsed json \<Rightarrow>
          (if \<not> ign then
             (case normalize_json json of
                Inl te \<Rightarrow> catch_finally em ign (EngineTypeError te) s
              | Inr mapped \<Rightarrow>
                  finally_block ign (s\<lparr>gifs := mapped, idx := 0, liked := [], disliked := []\<rparr>))
           else finally_block ign s))"

text \<open>
  What can happen to the mounted component: React runs the effect for a new value of
  the \<open>apiKey\<close> prop (the first run at mount included), React unmounts the component,
  one of the two promises of a closure settles, React renders the component again with
  the latest state, or a vote button is clicked.
\<close>

datatype event =
    RunEffect jsval
  | Unmount
  | FetchSettled nat fetch_outcome
  | JsonSettled nat json_outcome
  | Render
  | Vote jsval

text \<open>
  One event. Before a new effect run React runs the cleanup of the previous one. A
  settled promise resumes its closure only where that closure is parked; the closure
  reads its own \<open>ignore\<close> when it resumes. A click runs the \<open>handleVote\<close> of the last
  render, whose \<open>current\<close> is \<open>gifs[idx]\<close> of the state that render was given, on the
  latest state. An unmounted component gets no effect run, no render and no click.
\<close>

definition step :: "(type_error \<Rightarrow> string) \<Rightarrow> system \<Rightarrow> event \<Rightarrow> system" where
  "step em s ev =
     (case ev of
        RunEffect apiKey \<Rightarrow> (if mounted s then effect_body apiKey (run_cleanup s) else s)
      | Unmount \<Rightarrow> (if mounted s then (run_cleanup s)\<lparr>mounted := False\<rparr> else s)
      | Render \<Rightarrow> (if mounted s then s\<lparr>rendered := view s\<rparr> else s)
      | Vote kind \<Rightarrow>
          (if mounted s then
             s\<lparr>view := handleVote_closure (current (rendered s)) kind (view s)\<rparr>
           else s)
      | FetchSettled i fo \<Rightarrow>
          (if i < length (requests s) \<and> phase (requests s ! i) = AwaitFetch then
             (let r = requests s ! i;
                  (v, more) = after_fetch em (ignore r) fo (view s)
              in s\<lparr>view := v,
                   requests := (requests s)[i := r\<lparr>phase := (if more then AwaitJson else Finished)\<rparr>]\<rparr>)
           else s)
      | JsonSettled i jo \<Rightarrow>
          (if i < length (requests s) \<and> phase (requests s ! i) = AwaitJson then
             (let r = requests s ! i
              in s\<lparr>view := after_json em (ignore r) jo (view s),
                   requests := (requests s)[i := r\<lparr>phase := Finished\<rparr>]\<rparr>)
           else s))"

text \<open>A sequence of events, one after the other.\<close>

definition run :: "(type_error \<Rightarrow> string) \<Rightarrow> system \<Rightarrow> event list \<Rightarrow> system" where
  "run em s evs = foldl (step em) s evs"

section \<open>The query controller (App.jsx)\<close>

text \<open>
  The two \<open>useState\<close> cells of \<open>App\<close>. \<open>limit\<close> starts as the number 12; the
  \<open>onChange\<close> handlers store \<open>e.target.value\<close>, which is a string.
\<close>

record app_state =
  query :: jsval
  limit :: jsval

definition app_initial :: app_state where
  "app_initial = \<lparr>query = JStr ''cool'', limit = JNum 12\<rparr>"

datatype app_event = QueryInput string | LimitInput string

fun app_step :: "app_state \<Rightarrow> app_event \<Rightarrow> app_state" where
  "app_step s (QueryInput v) = s\<lparr>query := JStr v\<rparr>"
| "app_step s (LimitInput v) = s\<lparr>limit := JStr v\<rparr>"

definition app_run :: "app_event list \<Rightarrow> app_state" where
  "app_run evs = foldl app_step app_initial evs"

text \<open>
  An integer of at least 1, read generously: a number that is integral and at least 1,
  or a string of decimal digits that are not all zero.
\<close>

definition is_digit :: "char \<Rightarrow> bool" where
  "is_digit c = (c \<in> set ''0123456789'')"

fun denotes_int_ge1 :: "jsval \<Rightarrow> bool" where
  "denotes_int_ge1 (JNum r) = (r = of_int \<lfloor>r\<rfloor> \<and> 1 \<le> r)"
| "denotes_int_ge1 (JStr s) = (s \<noteq> [] \<and> list_all is_digit s \<and> list_ex (\<lambda>c. c \<noteq> CHR ''0'') s)"
| "denotes_int_ge1 v = False"

section \<open>Predicates and reference definitions of the properties\<close>

text \<open>Closure \<open>i\<close> exists and its \<open>ignore\<close> variable has been set.\<close>

definition ignored :: "nat \<Rightarrow> system \<Rightarrow> bool" where
  "ignored i s = (i < length (requests s) \<and> ignore (requests s ! i))"

text \<open>The cleanup React holds belongs to a closure that exists, of a mounted component.\<close>

definition well_formed :: "system \<Rightarrow> bool" where
  "well_formed s =
     (case cleanup s of None \<Rightarrow> True | Some i \<Rightarrow> i < length (requests s) \<and> mounted s)"

text \<open>
  The vote lists hold the cards of the deck positions below the pointer, each position
  in one list: \<open>ls\<close> and \<open>ds\<close> are the positions liked and disliked, in voting order.
\<close>

definition votes_split :: "giffer_state \<Rightarrow> nat list \<Rightarrow> nat list \<Rightarrow> bool" where
  "votes_split s ls ds =
     (liked s = map (\<lambda>i. gifs s ! i) ls \<and> disliked s = map (\<lambda>i. gifs s ! i) ds \<and>
      distinct (ls @ ds) \<and> set (ls @ ds) = {..<idx s} \<and> idx s \<le> length (gifs s))"

text \<open>
  Every vote of the history is handled by a render whose current card is the card
  under the latest pointer, as it is when React has rendered the latest state before
  the click.
\<close>

fun votes_on_latest :: "(type_error \<Rightarrow> string) \<Rightarrow> system \<Rightarrow> event list \<Rightarrow> bool" where
  "votes_on_latest em s [] = True"
| "votes_on_latest em s (Vote kind # evs) =
     (current (rendered s) = current (view s) \<and> votes_on_latest em (step em s (Vote kind)) evs)"
| "votes_on_latest em s (ev # evs) = votes_on_latest em (step em s ev) evs"

text \<open>
  The card the data model describes for one raw record: identifier and permalink
  copied, the record's title or "Untitled", and as preview the first available image
  URL in the order medium-downsized, original, downsized (the last candidate as it is
  when none is available).
\<close>

definition image_url :: "jsval \<Rightarrow> string \<Rightarrow> jsval" where
  "image_url d variant = opt_prop (opt_prop (opt_prop d ''images'') variant) ''url''"

definition spec_gif :: "jsval \<Rightarrow> gif" where
  "spec_gif d =
     \<lparr>id_field = opt_prop d ''id'',
      title = (if truthy (opt_prop d ''title'') then opt_prop d ''title'' else JStr ''Untitled''),
      preview =
        (if truthy (image_url d ''downsized_medium'') then image_url d ''downsized_medium''
         else if truthy (image_url d ''original'') then image_url d ''original''
         else image_url d ''downsized''),
      url = opt_prop d ''url''\<rparr>"

text \<open>The values typed into the count input, in order.\<close>

fun limit_inputs :: "app_event list \<Rightarrow> string list" where
  "limit_inputs [] = []"
| "limit_inputs (LimitInput v # evs) = v # limit_inputs evs"
| "limit_inputs (QueryInput v # evs) = limit_inputs evs"

subsection \<open>Example data\<close>

definition record_a :: jsval where
  "record_a =
     JObj [(''id'', JStr ''a1''), (''title'', JStr ''Cat''), (''url'', JStr ''https://g/a''),
           (''images'', JObj [(''original'', JObj [(''url'', JStr ''https://m/a.gif'')])])]"

definition record_b :: jsval where
  "record_b =
     JObj [(''id'', JStr ''b2''), (''title'', JStr []), (''url'', JStr ''https://g/b''),
           (''images'',
            JObj [(''downsized'', JObj [(''url'', JStr ''https://m/b-small.gif'')]),
                  (''downsized_medium'', JObj [(''url'', JStr ''https://m/b.gif'')])])]"

definition card_a :: gif where
  "card_a = \<lparr>id_field = JStr ''a1'', title = JStr ''Cat'',
             preview = JStr ''https://m/a.gif'', url = JStr ''https://g/a''\<rparr>"

definition card_b :: gif where
  "card_b = \<lparr>id_field = JStr ''b2'', title = JStr ''Untitled'',
             preview = JStr ''https://m/b.gif'', url = JStr ''https://g/b''\<rparr>"

definition two_cards :: giffer_state where
  "two_cards = \<lparr>gifs = [card_a, card_b], idx = 0, liked = [], disliked = [],
                loading = False, error = []\<rparr>"

definition spent_deck :: giffer_state where
  "spent_deck = \<lparr>gifs = [card_a, card_b], idx = 2, liked = [card_a], disliked = [card_b],
                 loading = False, error = []\<rparr>"

definition engine_text :: "type_error \<Rightarrow> string" where
  "engine_text te =
     (case te of NotAFunction \<Rightarrow> ''map is not a function''
               | ReadOfNullish \<Rightarrow> ''Cannot read properties of null'')"

definition ok_response :: response where
  "ok_response = \<lparr>ok = True, status = 200\<rparr>"

definition body_ab :: jsval where
  "body_ab = JObj [(''data'', JArr [record_a, record_b])]"

definition body_b :: jsval where
  "body_b = JObj [(''data'', JArr [record_b])]"


text \<open>A body whose \<open>data\<close> is one record instead of an array of records.\<close>

definition body_single :: jsval where
  "body_single = JObj [(''data'', record_a)]"

text \<open>One fetch of two cards, shown by a render.\<close>

definition history_deck :: "event list" where
  "history_deck =
     [RunEffect (JStr ''https://api/one''), FetchSettled 0 (FetchResponse ok_response),
      JsonSettled 0 (JsonParsed body_ab), Render]"

text \<open>A deck of two cards with the first one liked, and no fetch in flight.\<close>

definition history_zero :: "event list" where
  "history_zero = history_deck @ [Vote (JStr ''like'')]"

text \<open>A deck of two cards with the first one liked, and a second fetch in flight.\<close>

definition history_one :: "event list" where
  "history_one = history_zero @ [RunEffect (JStr ''https://api/two'')]"

definition one_liked :: giffer_state where
  "one_liked = \<lparr>gifs = [card_a, card_b], idx = 1, liked = [card_a], disliked = [],
                loading = True, error = []\<rparr>"

definition body_bare :: jsval where
  "body_bare = JObj [(''data'', JArr [JObj [(''id'', JStr ''c3'')]])]"

definition card_bare :: gif where
  "card_bare = \<lparr>id_field = JStr ''c3'', title = JStr ''Untitled'',
                preview = JUndefined, url = JUndefined\<rparr>"

text \<open>
  One fetch of two cards, then three votes with a render before each: the third finds
  the deck exhausted.
\<close>

definition history_two :: "event list" where
  "history_two =
     history_deck @ [Vote (JStr ''like''), Render, Vote (JStr ''dislike''), Render,
                     Vote (JStr ''like'')]"

text \<open>Two and three votes handled by one and the same render of the fresh deck.\<close>

definition history_like_dislike :: "event list" where
  "history_like_dislike = history_deck @ [Vote (JStr ''like''), Vote (JStr ''dislike'')]"

definition history_three_likes :: "event list" where
  "history_three_likes =
     history_deck @ [Vote (JStr ''like''), Vote (JStr ''like''), Vote (JStr ''like'')]"

section \<open>Evaluation on concrete inputs\<close>

lemmas run_defs =
  run_def step_def mount_def initial_state_def run_cleanup_def effect_body_def
  after_fetch_def after_json_def catch_finally_def finally_block_def
  invalid_endpoint_message_def

lemmas normalize_defs =
  normalize_json_def map_callback_def js_or_def

lemmas example_defs =
  record_a_def record_b_def card_a_def card_b_def two_cards_def spent_deck_def
  engine_text_def ok_response_def body_ab_def body_b_def

lemma run_append: "run em s (xs @ ys) = run em (run em s xs) ys"
  by (simp add: run_def)

lemma run_Cons: "run em s (x # xs) = run em (step em s x) xs"
  by (simp add: run_def)

lemma run_Nil: "run em s [] = s"
  by (simp add: run_def)

lemma normalize_body_ab: "normalize_json body_ab = Inr [card_a, card_b]"
  by (simp add: normalize_defs example_defs)

lemma normalize_body_b: "normalize_json body_b = Inr [card_b]"
  by (simp add: normalize_defs example_defs)

lemma history_deck_state:
  "run em mount history_deck =
     \<lparr>view = two_cards, rendered = two_cards,
      requests = [\<lparr>endpoint = ''https://api/one'', ignore = False, phase = Finished\<rparr>],
      cleanup = Some 0, mounted = True\<rparr>"
  by (simp add: run_defs history_deck_def ok_response_def normalize_body_ab two_cards_def)


section \<open>Voting: the properties\<close>

lemma current_Some: "idx s < length (gifs s) \<Longrightarrow> current s = Some (gifs s ! idx s)"
  by (simp add: current_def)

lemma current_None: "length (gifs s) \<le> idx s \<Longrightarrow> current s = None"
  by (simp add: current_def)

text \<open>
  C3. When a top-of-deck card exists, a vote moves the pointer forward by exactly one
  and appends the card under the pointer to one list only: to the liked list for the
  kind "like", to the disliked list for the kind "dislike". The other list, the deck,
  the loading flag and the error text stay as they were.
\<close>

theorem vote_appends_and_advances:
  assumes "idx s < length (gifs s)"
  shows "handleVote (JStr ''like'') s =
           s\<lparr>idx := idx s + 1, liked := liked s @ [gifs s ! idx s]\<rparr>
       \<and> handleVote (JStr ''dislike'') s =
           s\<lparr>idx := idx s + 1, disliked := disliked s @ [gifs s ! idx s]\<rparr>"
  using assms by (simp add: handleVote_def handleVote_closure_def current_Some)

theorem vote_appends_and_advances_witness:
  "idx two_cards < length (gifs two_cards)
   \<and> handleVote (JStr ''like'') two_cards = two_cards\<lparr>idx := 1, liked := [card_a]\<rparr>
   \<and> handleVote (JStr ''dislike'') two_cards = two_cards\<lparr>idx := 1, disliked := [card_a]\<rparr>"
  using vote_appends_and_advances [of two_cards] by (simp add: two_cards_def)

text \<open>
  C4. When the pointer is at or past the end of the deck there is no current card, and
  a vote of any kind returns the state as it was: deck, pointer, both vote lists,
  loading flag and error text.
\<close>

theorem vote_without_card_is_noop:
  assumes "length (gifs s) \<le> idx s"
  shows "handleVote kind s = s"
  using assms by (simp add: handleVote_def handleVote_closure_def current_None)

theorem vote_without_card_is_noop_witness:
  "length (gifs spent_deck) \<le> idx spent_deck
   \<and> handleVote (JStr ''like'') spent_deck = spent_deck"
  using vote_without_card_is_noop [of spent_deck "JStr ''like''"] by (simp add: spent_deck_def)

text \<open>
  C10. When a current card exists, a vote whose kind is anything but the string "like"
  (another spelling, another capitalisation, a value that is not a string) appends the
  card to the disliked list and advances the pointer: disliking is the default branch
  and no kind is turned away.
\<close>

theorem any_other_kind_is_dislike:
  assumes "idx s < length (gifs s)" and "kind \<noteq> JStr ''like''"
  shows "handleVote kind s =
           s\<lparr>idx := idx s + 1, disliked := disliked s @ [gifs s ! idx s]\<rparr>"
  using assms by (simp add: handleVote_def handleVote_closure_def current_Some)

theorem any_other_kind_is_dislike_witness:
  "idx two_cards < length (gifs two_cards) \<and> JStr ''Like'' \<noteq> JStr ''like''
   \<and> handleVote (JStr ''Like'') two_cards = two_cards\<lparr>idx := 1, disliked := [card_a]\<rparr>
   \<and> handleVote (JNum 7) two_cards = two_cards\<lparr>idx := 1, disliked := [card_a]\<rparr>"
  using any_other_kind_is_dislike [of two_cards "JStr ''Like''"]
    any_other_kind_is_dislike [of two_cards "JNum 7"]
  by (simp add: two_cards_def)

section \<open>The stale-closure guard\<close>

lemma catch_finally_ignored: "catch_finally em True e v = v"
  by (simp add: catch_finally_def)

lemma after_fetch_ignored: "fst (after_fetch em True fo v) = v"
  by (simp add: after_fetch_def catch_finally_ignored split: fetch_outcome.splits)

lemma after_json_ignored: "after_json em True jo v = v"
  by (simp add: after_json_def catch_finally_ignored finally_block_def
      split: json_outcome.splits)

lemma step_fetch_ignored:
  assumes "ignored i s"
  shows "view (step em s (FetchSettled i fo)) = view s"
  using assms after_fetch_ignored [of em fo "view s"]
  by (simp add: ignored_def step_def split_beta Let_def)

lemma step_json_ignored:
  assumes "ignored i s"
  shows "view (step em s (JsonSettled i jo)) = view s"
  using assms by (simp add: ignored_def step_def after_json_ignored Let_def)

text \<open>Nothing ever resets an \<open>ignore\<close> variable, and a closure keeps its position.\<close>

lemma run_cleanup_keeps_ignored:
  assumes "ignored i s"
  shows "ignored i (run_cleanup s)"
proof (cases "cleanup s")
  case None
  then show ?thesis using assms by (simp add: run_cleanup_def)
next
  case (Some j)
  show ?thesis
  proof (cases "j = i")
    case True
    then show ?thesis using assms Some by (simp add: ignored_def run_cleanup_def)
  next
    case False
    then show ?thesis using assms Some by (simp add: ignored_def run_cleanup_def)
  qed
qed

lemma effect_body_keeps_ignored: "ignored i s \<Longrightarrow> ignored i (effect_body v s)"
  by (auto simp: ignored_def effect_body_def nth_append)

lemma step_keeps_ignored:
  assumes "ignored i s"
  shows "ignored i (step em s ev)"
proof (cases ev)
  case (RunEffect v)
  with assms show ?thesis
    by (simp add: step_def run_cleanup_keeps_ignored effect_body_keeps_ignored)
next
  case Unmount
  from assms have "ignored i (run_cleanup s)" by (rule run_cleanup_keeps_ignored)
  with Unmount assms show ?thesis by (simp add: step_def ignored_def)
next
  case (FetchSettled j fo)
  with assms show ?thesis
    by (auto simp: step_def ignored_def nth_list_update split_beta Let_def)
next
  case (JsonSettled j jo)
  with assms show ?thesis
    by (auto simp: step_def ignored_def nth_list_update Let_def)
next
  case Render
  with assms show ?thesis by (simp add: step_def ignored_def)
next
  case (Vote k)
  with assms show ?thesis by (simp add: step_def ignored_def)
qed

lemma run_keeps_ignored: "ignored i s \<Longrightarrow> ignored i (run em s evs)"
  unfolding run_def by (induction evs arbitrary: s) (simp_all add: step_keeps_ignored)

lemma well_formed_mount: "well_formed mount"
  by (simp add: well_formed_def mount_def)

lemma well_formed_step: "well_formed s \<Longrightarrow> well_formed (step em s ev)"
  by (cases ev)
    (auto simp: well_formed_def step_def run_cleanup_def effect_body_def split_beta Let_def
      split: option.splits)

lemma well_formed_run: "well_formed s \<Longrightarrow> well_formed (run em s evs)"
  unfolding run_def by (induction evs arbitrary: s) (simp_all add: well_formed_step)

text \<open>A new effect run and an unmount both set \<open>ignore\<close> in the closure in flight.\<close>

lemma supersede_sets_ignore:
  assumes "well_formed s" and "cleanup s = Some i" and "ev = RunEffect v \<or> ev = Unmount"
  shows "ignored i (step em s ev)"
proof -
  from assms have "i < length (requests s)" and "mounted s"
    by (simp_all add: well_formed_def)
  then have "ignored i (run_cleanup s)"
    using assms(2) by (simp add: ignored_def run_cleanup_def)
  moreover from this have "ignored i (effect_body v (run_cleanup s))"
    by (rule effect_body_keeps_ignored)
  moreover have "ignored i (run_cleanup s) \<Longrightarrow> ignored i ((run_cleanup s)\<lparr>mounted := False\<rparr>)"
    by (simp add: ignored_def)
  ultimately show ?thesis
    using assms(3) \<open>mounted s\<close> by (auto simp: step_def)
qed

text \<open>
  C1. Take any history of the component from its mount, after which closure \<open>i\<close> is
  the fetch in flight for the current endpoint (React holds its cleanup). Let that
  fetch be superseded, by an effect run for another endpoint value or by the unmount,
  and let anything at all happen afterwards. Then the settling of either promise of
  closure \<open>i\<close>, with any outcome (a rejection, a response of any status, a parsed body,
  a body that fails to parse), leaves the whole component state as it is: deck,
  pointer, liked list, disliked list, loading flag and error text. The success path,
  the catch block and the finally block are all covered, since the step runs them all.
\<close>

theorem stale_resolution_is_discarded:
  assumes "cleanup (run em mount before) = Some i"
      and "ev = RunEffect v \<or> ev = Unmount"
  shows "view (step em (run em mount (before @ ev # later)) (FetchSettled i fo)) =
           view (run em mount (before @ ev # later))
       \<and> view (step em (run em mount (before @ ev # later)) (JsonSettled i jo)) =
           view (run em mount (before @ ev # later))"
proof -
  let ?s = "run em mount before"
  have wf: "well_formed ?s" by (simp add: well_formed_run well_formed_mount)
  have "ignored i (step em ?s ev)" using wf assms by (rule supersede_sets_ignore)
  then have "ignored i (run em (step em ?s ev) later)" by (rule run_keeps_ignored)
  moreover have "run em mount (before @ ev # later) = run em (step em ?s ev) later"
    by (simp add: run_def)
  ultimately have "ignored i (run em mount (before @ ev # later))" by simp
  then show ?thesis
    by (simp add: step_fetch_ignored step_json_ignored)
qed

theorem stale_resolution_is_discarded_witness:
  "cleanup (run engine_text mount
      [RunEffect (JStr ''https://api/one''), FetchSettled 0 (FetchResponse ok_response)]) = Some 0
   \<and> view (step engine_text
        (run engine_text mount
          ([RunEffect (JStr ''https://api/one''), FetchSettled 0 (FetchResponse ok_response)]
            @ RunEffect (JStr ''https://api/two'')
            # [FetchSettled 1 (FetchResponse ok_response), JsonSettled 1 (JsonParsed body_ab)]))
        (JsonSettled 0 (JsonParsed body_b))) = two_cards"
proof -
  have c: "cleanup (run engine_text mount
      [RunEffect (JStr ''https://api/one''), FetchSettled 0 (FetchResponse ok_response)]) = Some 0"
    by (simp add: run_defs ok_response_def)
  have v: "view (run engine_text mount
          ([RunEffect (JStr ''https://api/one''), FetchSettled 0 (FetchResponse ok_response)]
            @ RunEffect (JStr ''https://api/two'')
            # [FetchSettled 1 (FetchResponse ok_response), JsonSettled 1 (JsonParsed body_ab)]))
        = two_cards"
    by (simp add: run_defs ok_response_def normalize_body_ab two_cards_def)
  show ?thesis
    using c v stale_resolution_is_discarded [OF c, of "RunEffect (JStr ''https://api/two'')"
        "JStr ''https://api/two''"
        "[FetchSettled 1 (FetchResponse ok_response), JsonSettled 1 (JsonParsed body_ab)]"
        "FetchRejected (ErrorObject ''TypeError'' ''Failed to fetch'')" "JsonParsed body_b"]
    by simp
qed

section \<open>The effect: validation, failure, success\<close>

lemma fetch_ok_step:
  assumes "i < length (requests s)" and "phase (requests s ! i) = AwaitFetch" and "ok r"
  shows "view (step em s (FetchSettled i (FetchResponse r))) = view s"
    and "requests (step em s (FetchSettled i (FetchResponse r))) =
           (requests s)[i := (requests s ! i)\<lparr>phase := AwaitJson\<rparr>]"
  using assms by (simp_all add: step_def after_fetch_def)

lemma json_settled_replaces:
  assumes "i < length (requests t)" and "\<not> ignore (requests t ! i)"
      and "phase (requests t ! i) = AwaitJson" and "normalize_json json = Inr mapped"
  shows "view (step em t (JsonSettled i (JsonParsed json))) =
           (view t)\<lparr>gifs := mapped, idx := 0, liked := [], disliked := [], loading := False\<rparr>"
  using assms by (simp add: step_def after_json_def finally_block_def)

lemma run_cleanup_view: "view (run_cleanup s) = view s"
  by (simp add: run_cleanup_def split: option.splits)

lemma run_cleanup_endpoints: "map endpoint (requests (run_cleanup s)) = map endpoint (requests s)"
proof (cases "cleanup s")
  case None
  then show ?thesis by (simp add: run_cleanup_def)
next
  case (Some i)
  have "(map endpoint (requests s))[i := endpoint (requests s ! i)] = map endpoint (requests s)"
    by (cases "i < length (requests s)") (simp_all add: list_update_same_conv list_update_beyond)
  with Some show ?thesis by (simp add: run_cleanup_def map_update)
qed

text \<open>
  C8. For an endpoint value that is not a non-empty string (the empty string, or a value
  of another type), the effect run sets the error text to the fixed message, which
  begins "Invalid endpoint", and starts no fetch: the list of fetched URLs is what it
  was. Deck, pointer, both vote lists (and the loading flag) keep their values.
\<close>

theorem invalid_endpoint_sets_error_without_fetch:
  assumes "mounted s" and "\<not> (\<exists>u. apiKey = JStr u \<and> u \<noteq> [])"
  shows "view (step em s (RunEffect apiKey)) = (view s)\<lparr>error := invalid_endpoint_message\<rparr>
       \<and> take 16 (error (view (step em s (RunEffect apiKey)))) = ''Invalid endpoint''
       \<and> map endpoint (requests (step em s (RunEffect apiKey))) = map endpoint (requests s)"
proof -
  have bad: "\<not> truthy apiKey \<or> \<not> is_string apiKey"
    using assms(2) by (cases apiKey) simp_all
  then have "step em s (RunEffect apiKey) =
      (run_cleanup s)\<lparr>view := (view (run_cleanup s))\<lparr>error := invalid_endpoint_message\<rparr>,
                      cleanup := None\<rparr>"
    using assms(1) by (simp add: step_def effect_body_def)
  then show ?thesis
    by (simp add: run_cleanup_view run_cleanup_endpoints invalid_endpoint_message_def)
qed

theorem invalid_endpoint_sets_error_without_fetch_witness:
  "mounted (run engine_text mount [RunEffect (JStr ''https://api/one'')])
   \<and> \<not> (\<exists>u. JStr [] = JStr u \<and> u \<noteq> [])
   \<and> view (step engine_text (run engine_text mount [RunEffect (JStr ''https://api/one'')])
        (RunEffect (JStr []))) =
       \<lparr>gifs = [], idx = 0, liked = [], disliked = [], loading = True,
        error = ''Invalid endpoint: Pass a full Giphy URL as the `apiKey` prop.''\<rparr>
   \<and> map endpoint (requests (step engine_text
        (run engine_text mount [RunEffect (JStr ''https://api/one'')]) (RunEffect JNull))) =
       [''https://api/one'']"
proof -
  have m: "mounted (run engine_text mount [RunEffect (JStr ''https://api/one'')])"
    by (simp add: run_defs)
  have e: "\<not> (\<exists>u. JStr [] = JStr u \<and> u \<noteq> [])" by simp
  have n: "\<not> (\<exists>u. JNull = JStr u \<and> u \<noteq> [])" by simp
  show ?thesis
    using m e invalid_endpoint_sets_error_without_fetch [OF m e, of engine_text]
      invalid_endpoint_sets_error_without_fetch [OF m n, of engine_text]
    by (simp add: run_defs)
qed









lemma history_one_view: "view (run em mount history_one) = one_liked"
  by (simp add: run_defs history_one_def history_zero_def history_deck_def ok_response_def
      normalize_body_ab one_liked_def handleVote_closure_def current_def)

lemma history_one_requests:
  "requests (run em mount history_one) =
     [\<lparr>endpoint = ''https://api/one'', ignore = True, phase = Finished\<rparr>,
      \<lparr>endpoint = ''https://api/two'', ignore = False, phase = AwaitFetch\<rparr>]"
  by (simp add: run_defs history_one_def history_zero_def history_deck_def ok_response_def
      normalize_body_ab)

lemma history_one_mounted: "mounted (run em mount history_one)"
  by (simp add: run_defs history_one_def history_zero_def history_deck_def ok_response_def
      normalize_body_ab)

lemma normalize_body_single: "normalize_json body_single = Inl NotAFunction"
  by (simp add: normalize_defs body_single_def record_a_def)





text \<open>Votes touch the pointer and the two vote lists of the state, and no closure.\<close>

lemma handleVote_closure_error: "error (handleVote_closure cur k v) = error v"
  by (simp add: handleVote_closure_def split: option.splits)

lemma step_vote_frame:
  "requests (step em s (Vote k)) = requests s \<and> error (view (step em s (Vote k))) = error (view s)"
  by (simp add: step_def handleVote_closure_error)

lemma run_votes:
  "requests (run em s (map Vote ks)) = requests s
   \<and> error (view (run em s (map Vote ks))) = error (view s)"
proof (induction ks arbitrary: s)
  case Nil
  show ?case by (simp add: run_def)
next
  case (Cons k ks)
  have "run em s (map Vote (k # ks)) = run em (step em s (Vote k)) (map Vote ks)"
    by (simp add: run_def)
  with Cons.IH [of "step em s (Vote k)"] step_vote_frame [of em s k]
  show ?case by simp
qed

text \<open>
  C2 (as amended). Take a fetch that is not superseded, whose response is ok, whose body
  parses, and whose parsed body the normalization turns into a list without throwing.
  When its body arrives, the deck becomes that normalized list, the pointer becomes 0,
  both vote lists become empty and the loading flag is cleared, whatever deck, pointer
  and vote lists were there before and whatever votes were cast while it was in flight.
\<close>

theorem successful_fetch_replaces_deck:
  assumes "i < length (requests s)" and "\<not> ignore (requests s ! i)"
      and "phase (requests s ! i) = AwaitFetch" and "ok r" and "normalize_json json = Inr mapped"
  shows "view (run em s (FetchSettled i (FetchResponse r) # map Vote ks
                          @ [JsonSettled i (JsonParsed json)])) =
           (view s)\<lparr>gifs := mapped, idx := 0, liked := [], disliked := [], loading := False\<rparr>"
proof -
  let ?s1 = "step em s (FetchSettled i (FetchResponse r))"
  let ?s2 = "run em ?s1 (map Vote ks)"
  have v1: "view ?s1 = view s"
    using assms(1,3,4) by (rule fetch_ok_step)
  have r1: "requests ?s1 = (requests s)[i := (requests s ! i)\<lparr>phase := AwaitJson\<rparr>]"
    using assms(1,3,4) by (rule fetch_ok_step)
  have v2: "error (view ?s2) = error (view s)"
    using run_votes [of em ?s1 ks] v1 by simp
  have r2: "requests ?s2 = (requests s)[i := (requests s ! i)\<lparr>phase := AwaitJson\<rparr>]"
    using run_votes [of em ?s1 ks] r1 by simp
  have "i < length (requests ?s2)" and "\<not> ignore (requests ?s2 ! i)"
    and "phase (requests ?s2 ! i) = AwaitJson"
    using assms(1,2) by (simp_all add: r2)
  then have "view (step em ?s2 (JsonSettled i (JsonParsed json))) =
      (view ?s2)\<lparr>gifs := mapped, idx := 0, liked := [], disliked := [], loading := False\<rparr>"
    using assms(5) by (rule json_settled_replaces)
  then have "view (step em ?s2 (JsonSettled i (JsonParsed json))) =
      (view s)\<lparr>gifs := mapped, idx := 0, liked := [], disliked := [], loading := False\<rparr>"
    using v2 by (intro giffer_state.equality) simp_all
  then show ?thesis
    by (simp add: run_Cons run_append run_Nil)
qed

theorem successful_fetch_replaces_deck_witness:
  "1 < length (requests (run engine_text mount history_one))
   \<and> \<not> ignore (requests (run engine_text mount history_one) ! 1)
   \<and> phase (requests (run engine_text mount history_one) ! 1) = AwaitFetch
   \<and> ok ok_response \<and> normalize_json body_b = Inr [card_b]
   \<and> view (run engine_text (run engine_text mount history_one)
        (FetchSettled 1 (FetchResponse ok_response) # map Vote [JStr ''dislike'']
          @ [JsonSettled 1 (JsonParsed body_b)])) =
       \<lparr>gifs = [card_b], idx = 0, liked = [], disliked = [], loading = False, error = []\<rparr>"
proof -
  let ?s = "run engine_text mount history_one"
  have a: "1 < length (requests ?s)" by (simp add: history_one_requests)
  have b: "\<not> ignore (requests ?s ! 1)" by (simp add: history_one_requests)
  have c: "phase (requests ?s ! 1) = AwaitFetch" by (simp add: history_one_requests)
  have d: "ok ok_response" by (simp add: ok_response_def)
  show ?thesis
    using a b c d normalize_body_b
      successful_fetch_replaces_deck [OF a b c d normalize_body_b, of engine_text "[JStr ''dislike'']"]
    by (simp add: history_one_view one_liked_def)
qed

text \<open>
  C2 as stated fails. After the deck of two cards with the first one liked: an ok
  response whose body parses to an object whose \<open>data\<close> is a single record, not
  an array, makes \<open>.map\<close> throw, and the deck, the pointer (1) and the liked list stay
  as they were; and an ok
  response with a good body that arrives after its fetch was superseded changes
  nothing either.
\<close>

theorem successful_fetch_replaces_deck_counterexample:
  "idx (view (run engine_text mount
      (history_one @ [FetchSettled 1 (FetchResponse ok_response),
                      JsonSettled 1 (JsonParsed body_single)]))) \<noteq> 0
   \<and> liked (view (run engine_text mount
      (history_one @ [FetchSettled 1 (FetchResponse ok_response),
                      JsonSettled 1 (JsonParsed body_single)]))) \<noteq> []
   \<and> gifs (view (run engine_text mount
      (history_one @ [RunEffect (JStr ''https://api/three''),
                      FetchSettled 1 (FetchResponse ok_response),
                      JsonSettled 1 (JsonParsed body_b)]))) \<noteq> [card_b]"
proof -
  have odd: "view (run engine_text mount
      (history_one @ [FetchSettled 1 (FetchResponse ok_response),
                      JsonSettled 1 (JsonParsed body_single)])) =
      one_liked\<lparr>loading := False, error := ''map is not a function''\<rparr>"
    by (simp add: run_append run_Cons run_Nil history_one_view history_one_requests
        step_def after_fetch_def after_json_def catch_finally_def normalize_body_single
        ok_response_def engine_text_def)
  have stale: "view (run engine_text mount
      (history_one @ [RunEffect (JStr ''https://api/three''),
                      FetchSettled 1 (FetchResponse ok_response),
                      JsonSettled 1 (JsonParsed body_b)])) = one_liked"
    by (simp add: run_append run_Cons run_Nil history_one_view history_one_requests
        history_one_mounted step_def after_fetch_def after_json_def finally_block_def
        run_cleanup_def effect_body_def normalize_body_b ok_response_def one_liked_def
        history_one_def history_zero_def history_deck_def run_defs normalize_body_ab
        handleVote_closure_def current_def)
  show ?thesis
    unfolding odd stale by (simp add: one_liked_def)
qed

section \<open>Normalization: the properties\<close>

lemma map_callback_spec: "\<not> nullish d \<Longrightarrow> map_callback d = Inr (spec_gif d)"
  by (simp add: map_callback_def spec_gif_def image_url_def js_or_def)

lemma array_map_spec: "\<forall>d\<in>set ds. \<not> nullish d \<Longrightarrow> array_map ds = Inr (map spec_gif ds)"
  by (induction ds) (simp_all add: map_callback_spec)

lemma array_map_throws: "d \<in> set ds \<Longrightarrow> nullish d \<Longrightarrow> array_map ds = Inl ReadOfNullish"
proof (induction ds)
  case Nil
  then show ?case by simp
next
  case (Cons x xs)
  show ?case
  proof (cases "nullish x")
    case True
    then show ?thesis by (simp add: map_callback_def)
  next
    case False
    with Cons have "array_map xs = Inl ReadOfNullish" by auto
    with False show ?thesis by (simp add: map_callback_spec)
  qed
qed

text \<open>
  C6 (as amended). For a parsed body whose \<open>data\<close> field is an array \<open>ds\<close> with no
  \<open>null\<close> entry, or is absent or otherwise falsy (then \<open>ds\<close> is empty), normalization
  returns, in the order of the response, one card per record: identifier and permalink
  as read from the record, the record's title when it is truthy and "Untitled"
  otherwise, and as preview the first truthy URL among the variants medium-downsized,
  original, downsized, or else whatever the downsized URL is (\<open>undefined\<close> when the record
  has none, so the preview need not be a string).
\<close>

theorem normalize_maps_records:
  assumes "opt_prop json ''data'' = JArr ds \<or> (\<not> truthy (opt_prop json ''data'') \<and> ds = [])"
      and "\<forall>d\<in>set ds. \<not> nullish d"
  shows "normalize_json json = Inr (map spec_gif ds)"
proof -
  have "js_or (opt_prop json ''data'') (JArr []) = JArr ds"
    using assms(1) by (auto simp: js_or_def)
  then show ?thesis
    using assms(2) by (simp add: normalize_json_def array_map_spec)
qed

theorem normalize_maps_records_witness:
  "opt_prop body_ab ''data'' = JArr [record_a, record_b]
   \<and> \<not> nullish record_a \<and> \<not> nullish record_b
   \<and> normalize_json body_ab = Inr [card_a, card_b]
   \<and> \<not> truthy (opt_prop (JObj []) ''data'') \<and> normalize_json (JObj []) = Inr []"
proof -
  have a: "opt_prop body_ab ''data'' = JArr [record_a, record_b]
      \<or> (\<not> truthy (opt_prop body_ab ''data'') \<and> [record_a, record_b] = [])"
    by (simp add: body_ab_def)
  have b: "\<forall>d\<in>set [record_a, record_b]. \<not> nullish d"
    by (simp add: record_a_def record_b_def)
  have c: "opt_prop (JObj []) ''data'' = JArr [] \<or> (\<not> truthy (opt_prop (JObj []) ''data'') \<and> [] = [])"
    by simp
  have d: "\<forall>d\<in>set []. \<not> nullish d" by simp
  have "spec_gif record_a = card_a" and "spec_gif record_b = card_b"
    by (simp_all add: spec_gif_def image_url_def record_a_def record_b_def card_a_def card_b_def)
  then show ?thesis
    using normalize_maps_records [OF a b] normalize_maps_records [OF c d] b
    by (simp add: body_ab_def)
qed

text \<open>
  C6 as stated fails. A record without images gives a card whose preview is
  \<open>undefined\<close>, not a string; and a parsed body whose \<open>data\<close> is a single record,
  not an array, gives no deck at all: the call of \<open>.map\<close> throws.
\<close>

theorem normalize_maps_records_counterexample:
  "normalize_json body_bare = Inr [card_bare] \<and> \<not> is_string (preview card_bare)
   \<and> normalize_json body_single = Inl NotAFunction"
  by (simp add: normalize_defs body_bare_def card_bare_def body_single_def record_a_def)

section \<open>The vote lists: the invariant\<close>

lemma votes_split_fresh:
  "votes_split (v\<lparr>gifs := mapped, idx := 0, liked := [], disliked := []\<rparr>) [] []"
  by (simp add: votes_split_def)

lemma votes_split_vote:
  assumes "votes_split v ls ds"
  shows "\<exists>ls' ds'. votes_split (handleVote k v) ls' ds'"
proof (cases "idx v < length (gifs v)")
  case False
  then have "handleVote k v = v" by (simp add: handleVote_def handleVote_closure_def current_def)
  with assms show ?thesis by auto
next
  case True
  from assms have fresh: "idx v \<notin> set ls" "idx v \<notin> set ds"
    and cover: "set ls \<union> set ds = {..<idx v}"
    by (auto simp: votes_split_def)
  have grow: "insert (idx v) {..<idx v} = {..<Suc (idx v)}"
    by auto
  show ?thesis
  proof (cases "k = JStr ''like''")
    case like: True
    have "votes_split (handleVote k v) (ls @ [idx v]) ds"
      using assms True like fresh cover grow
      by (simp add: votes_split_def handleVote_def handleVote_closure_def current_def)
    then show ?thesis by blast
  next
    case other: False
    have "votes_split (handleVote k v) ls (ds @ [idx v])"
      using assms True other fresh cover grow
      by (simp add: votes_split_def handleVote_def handleVote_closure_def current_def)
    then show ?thesis by blast
  qed
qed

lemma catch_finally_frame:
  "gifs (catch_finally em ign e v) = gifs v \<and> idx (catch_finally em ign e v) = idx v
   \<and> liked (catch_finally em ign e v) = liked v \<and> disliked (catch_finally em ign e v) = disliked v"
  by (simp add: catch_finally_def)

lemma votes_split_catch:
  "votes_split v ls ds \<Longrightarrow> votes_split (catch_finally em ign e v) ls ds"
  using catch_finally_frame [of em ign e v] by (simp add: votes_split_def)

lemma votes_split_finally:
  "votes_split v ls ds \<Longrightarrow> votes_split (finally_block ign v) ls ds"
  by (simp add: votes_split_def finally_block_def)

lemma votes_split_after_fetch:
  "votes_split v ls ds \<Longrightarrow> votes_split (fst (after_fetch em ign fo v)) ls ds"
  by (simp add: after_fetch_def votes_split_catch split: fetch_outcome.splits)

lemma votes_split_after_json:
  assumes "votes_split v ls ds"
  shows "\<exists>ls' ds'. votes_split (after_json em ign jo v) ls' ds'"
proof (cases jo)
  case (JsonRejected e)
  with assms have "votes_split (after_json em ign jo v) ls ds"
    by (simp add: after_json_def votes_split_catch)
  then show ?thesis by blast
next
  case (JsonParsed json)
  show ?thesis
  proof (cases "\<not> ign \<and> (\<exists>mapped. normalize_json json = Inr mapped)")
    case True
    then obtain mapped where "normalize_json json = Inr mapped" and "\<not> ign" by blast
    with JsonParsed have "votes_split (after_json em ign jo v) [] []"
      by (simp add: after_json_def votes_split_finally votes_split_fresh)
    then show ?thesis by blast
  next
    case False
    with JsonParsed assms have "votes_split (after_json em ign jo v) ls ds"
      by (cases "normalize_json json")
        (auto simp: after_json_def votes_split_finally votes_split_catch)
    then show ?thesis by blast
  qed
qed

text \<open>
  A vote handled by a render whose current card is the card under the latest pointer
  is the vote of the latest state.
\<close>

lemma vote_on_latest:
  assumes "current (rendered s) = current (view s)" and "mounted s"
  shows "view (step em s (Vote k)) = handleVote k (view s)"
  using assms by (simp add: step_def handleVote_def)

lemma votes_split_step:
  assumes "\<exists>ls ds. votes_split (view s) ls ds" and "votes_on_latest em s [ev]"
  shows "\<exists>ls ds. votes_split (view (step em s ev)) ls ds"
proof -
  from assms(1) obtain ls ds where inv: "votes_split (view s) ls ds" by blast
  show ?thesis
  proof (cases ev)
    case (RunEffect apiKey)
    have "votes_split (view (step em s ev)) ls ds"
      using inv RunEffect
      by (auto simp: step_def effect_body_def run_cleanup_view votes_split_def)
    then show ?thesis by blast
  next
    case Unmount
    have "votes_split (view (step em s ev)) ls ds"
      using inv Unmount by (auto simp: step_def run_cleanup_view)
    then show ?thesis by blast
  next
    case (FetchSettled i fo)
    have "votes_split (view (step em s ev)) ls ds"
      using inv FetchSettled votes_split_after_fetch [OF inv, of em "ignore (requests s ! i)" fo]
      by (auto simp: step_def split_beta Let_def)
    then show ?thesis by blast
  next
    case (JsonSettled i jo)
    show ?thesis
      using inv JsonSettled votes_split_after_json [OF inv, of em "ignore (requests s ! i)" jo]
      by (auto simp: step_def Let_def)
  next
    case Render
    have "votes_split (view (step em s ev)) ls ds"
      using inv Render by (simp add: step_def)
    then show ?thesis by blast
  next
    case (Vote k)
    with assms(2) have same: "current (rendered s) = current (view s)" by simp
    show ?thesis
    proof (cases "mounted s")
      case True
      from same True have "view (step em s (Vote k)) = handleVote k (view s)"
        by (rule vote_on_latest)
      with votes_split_vote [OF inv, of k] Vote show ?thesis by simp
    next
      case False
      with Vote have "view (step em s ev) = view s" by (simp add: step_def)
      with inv show ?thesis by auto
    qed
  qed
qed

lemma votes_on_latest_Cons:
  "votes_on_latest em s (ev # evs) =
     (votes_on_latest em s [ev] \<and> votes_on_latest em (step em s ev) evs)"
  by (cases ev) simp_all

lemma votes_split_run:
  assumes "\<exists>ls ds. votes_split (view s) ls ds" and "votes_on_latest em s evs"
  shows "\<exists>ls ds. votes_split (view (run em s evs)) ls ds"
  using assms
proof (induction evs arbitrary: s)
  case Nil
  then show ?case by (simp add: run_Nil)
next
  case (Cons ev evs)
  from Cons.prems(2) have one: "votes_on_latest em s [ev]"
    and rest: "votes_on_latest em (step em s ev) evs"
    using votes_on_latest_Cons [of em s ev evs] by simp_all
  from Cons.prems(1) one have "\<exists>ls ds. votes_split (view (step em s ev)) ls ds"
    by (rule votes_split_step)
  then show ?case unfolding run_Cons using rest by (rule Cons.IH)
qed

lemma votes_split_lengths:
  assumes "votes_split v ls ds"
  shows "length (liked v) + length (disliked v) = idx v"
proof -
  from assms have "distinct (ls @ ds)" and "set (ls @ ds) = {..<idx v}"
    by (simp_all add: votes_split_def)
  then have "length (ls @ ds) = idx v"
    by (metis card_lessThan distinct_card)
  moreover from assms have "length (liked v) = length ls" and "length (disliked v) = length ds"
    by (simp_all add: votes_split_def)
  ultimately show ?thesis by simp
qed

lemma votes_split_disjoint:
  assumes "votes_split v ls ds" and "distinct (gifs v)"
  shows "set (liked v) \<inter> set (disliked v) = {}"
proof (rule ccontr)
  assume "set (liked v) \<inter> set (disliked v) \<noteq> {}"
  then obtain g where "g \<in> set (liked v)" and "g \<in> set (disliked v)" by blast
  with assms(1) obtain a b where a: "a \<in> set ls" "g = gifs v ! a"
    and b: "b \<in> set ds" "g = gifs v ! b"
    by (auto simp: votes_split_def)
  from assms(1) have cover: "set ls \<union> set ds = {..<idx v}" and le: "idx v \<le> length (gifs v)"
    and apart: "set ls \<inter> set ds = {}"
    by (simp_all add: votes_split_def)
  from cover a(1) b(1) have "a < idx v" and "b < idx v" by blast+
  with le have "a < length (gifs v)" and "b < length (gifs v)" by simp_all
  moreover from apart a(1) b(1) have "a \<noteq> b" by blast
  ultimately have "a < length (gifs v)" and "b < length (gifs v)" and "a \<noteq> b" by simp_all
  with assms(2) a(2) b(2) show False
    by (simp add: nth_eq_iff_index_eq)
qed

text \<open>
  C5 (as amended). Take any history of the component from its mount (effect runs,
  settled promises, renders and votes, so in particular the votes that follow a
  successful fetch) in which every vote is handled by a render whose current card is
  the card under the latest pointer, as it is when React has rendered the latest state
  before the click. In the state reached, the liked and the disliked list hold the
  cards of disjoint sets of deck positions, every position below the pointer being in
  one of them; the two lengths add up to the pointer, which never exceeds the deck
  length; and when no two cards of the deck are equal, no card is in both lists.
\<close>

theorem vote_lists_split_deck_positions:
  assumes "v = view (run em mount evs)" and "votes_on_latest em mount evs"
  shows "(\<exists>ls ds. votes_split v ls ds)
       \<and> length (liked v) + length (disliked v) = idx v
       \<and> length (liked v) + length (disliked v) \<le> length (gifs v)
       \<and> (distinct (gifs v) \<longrightarrow> set (liked v) \<inter> set (disliked v) = {})"
proof -
  have "votes_split (view mount) [] []"
    by (simp add: votes_split_def mount_def initial_state_def)
  then have "\<exists>ls ds. votes_split (view mount) ls ds" by blast
  then have "\<exists>ls ds. votes_split (view (run em mount evs)) ls ds"
    using assms(2) by (rule votes_split_run)
  then obtain ls ds where inv: "votes_split v ls ds"
    using assms(1) by blast
  have "length (liked v) + length (disliked v) = idx v"
    using inv by (rule votes_split_lengths)
  moreover have "idx v \<le> length (gifs v)"
    using inv by (simp add: votes_split_def)
  moreover have "distinct (gifs v) \<longrightarrow> set (liked v) \<inter> set (disliked v) = {}"
    using inv by (simp add: votes_split_disjoint)
  ultimately show ?thesis using inv by auto
qed

theorem vote_lists_split_deck_positions_witness:
  "spent_deck = view (run engine_text mount history_two)
   \<and> votes_on_latest engine_text mount history_two
   \<and> votes_split spent_deck [0] [1]
   \<and> length (liked spent_deck) + length (disliked spent_deck) = 2
   \<and> distinct (gifs spent_deck)
   \<and> set (liked spent_deck) \<inter> set (disliked spent_deck) = {}"
proof -
  have reach: "spent_deck = view (run engine_text mount history_two)"
    by (simp add: history_two_def run_append history_deck_state)
      (simp add: run_def step_def two_cards_def spent_deck_def handleVote_closure_def current_def)
  have fresh: "votes_on_latest engine_text mount history_two"
    by (simp add: history_two_def history_deck_def run_defs ok_response_def normalize_body_ab
        handleVote_closure_def current_def)
  have apart: "distinct (gifs spent_deck)"
    by (simp add: spent_deck_def card_a_def card_b_def)
  have split: "votes_split spent_deck [0] [1]"
    by (auto simp: votes_split_def spent_deck_def)
  have len: "length (liked spent_deck) + length (disliked spent_deck) = 2"
    by (simp add: spent_deck_def)
  from vote_lists_split_deck_positions [OF reach fresh] apart
  have "set (liked spent_deck) \<inter> set (disliked spent_deck) = {}"
    by blast
  with reach fresh split len apart show ?thesis
    by blast
qed

text \<open>
  C5 as stated fails. The handler closes over the \<open>current\<close> of its render, and only the
  setters work on the latest state. After a fetch of two cards and its render, a like
  and a dislike handled by that one render both append the first card, which is then
  in both lists; three likes handled by that one render append it three times and move
  the pointer to 3, so the two lists together are longer than the deck of two.
\<close>

theorem vote_lists_split_deck_positions_counterexample:
  "liked (view (run engine_text mount history_like_dislike)) = [card_a]
   \<and> disliked (view (run engine_text mount history_like_dislike)) = [card_a]
   \<and> set (liked (view (run engine_text mount history_like_dislike)))
       \<inter> set (disliked (view (run engine_text mount history_like_dislike))) \<noteq> {}
   \<and> gifs (view (run engine_text mount history_three_likes)) = [card_a, card_b]
   \<and> liked (view (run engine_text mount history_three_likes)) = [card_a, card_a, card_a]
   \<and> idx (view (run engine_text mount history_three_likes)) = 3
   \<and> \<not> length (liked (view (run engine_text mount history_three_likes)))
         + length (disliked (view (run engine_text mount history_three_likes)))
       \<le> length (gifs (view (run engine_text mount history_three_likes)))"
proof -
  have two: "view (run engine_text mount history_like_dislike) =
      two_cards\<lparr>idx := 2, liked := [card_a], disliked := [card_a]\<rparr>"
    by (simp add: history_like_dislike_def run_append history_deck_state)
      (simp add: run_def step_def two_cards_def handleVote_closure_def current_def)
  have three: "view (run engine_text mount history_three_likes) =
      two_cards\<lparr>idx := 3, liked := [card_a, card_a, card_a]\<rparr>"
    by (simp add: history_three_likes_def run_append history_deck_state)
      (simp add: run_def step_def two_cards_def handleVote_closure_def current_def)
  show ?thesis
    unfolding two three by (simp add: two_cards_def)
qed

section \<open>The query controller: the result count\<close>

lemma limit_foldl:
  "limit (foldl app_step s evs) =
     (if limit_inputs evs = [] then limit s else JStr (last (limit_inputs evs)))"
proof (induction evs arbitrary: s)
  case Nil
  show ?case by simp
next
  case (Cons ev evs)
  show ?case by (cases ev) (simp_all add: Cons.IH)
qed

text \<open>
  C9 (as amended). The result count held by the query controller is the number 12 until
  the count input is first edited; after that it is the text of the latest edit of that
  input, stored as it was typed, with no check that it denotes an integer of at least 1.
  Edits of the search text do not touch it.
\<close>

theorem limit_is_latest_input_text:
  "limit (app_run evs) =
     (if limit_inputs evs = [] then JNum 12 else JStr (last (limit_inputs evs)))"
  by (simp add: app_run_def limit_foldl app_initial_def)

text \<open>
  C9 as stated fails: typing 0 into the count input leaves the text "0" as the result
  count, and emptying the input leaves the empty text. Neither is an integer of at
  least 1, even when a text of digits is read as the number it spells.
\<close>

theorem limit_is_latest_input_text_counterexample:
  "\<not> denotes_int_ge1 (limit (app_run [LimitInput ''0'']))
   \<and> \<not> denotes_int_ge1 (limit (app_run [QueryInput ''cats'', LimitInput ''3'', LimitInput []]))"
  by (simp add: app_run_def app_initial_def)

end
